theory Spec2Isabelle
  imports Complex_Main "HOL-Library.Sublist"
begin

section \<open>JavaScript values used by the page script\<close>

subsection \<open>Numbers\<close>

text \<open>
  A JavaScript number is modelled by its value: not-a-number, one of the two infinities,
  or a finite value kept as an exact rational. The rounding of IEEE-754 doubles and the
  sign of zero are left out; everything below depends only on how \<open>NaN\<close> propagates
  through \<open>+\<close> and \<open>*\<close> and on the order in which the script combines the numbers.
  Equality of \<open>jsnum\<close> is identity of the value (\<open>Object.is\<close>), under which
  \<open>NaN\<close> is equal to itself; \<open>strict_eq\<close> is the script-level \<open>===\<close>.
\<close>

datatype jsnum = NaN | PosInf | NegInf | Fin rat

fun jsadd :: "jsnum \<Rightarrow> jsnum \<Rightarrow> jsnum" where
  "jsadd NaN _ = NaN"
| "jsadd _ NaN = NaN"
| "jsadd PosInf NegInf = NaN"
| "jsadd NegInf PosInf = NaN"
| "jsadd PosInf _ = PosInf"
| "jsadd _ PosInf = PosInf"
| "jsadd NegInf _ = NegInf"
| "jsadd _ NegInf = NegInf"
| "jsadd (Fin a) (Fin b) = Fin (a + b)"

definition signed_inf :: "bool \<Rightarrow> jsnum" where
  "signed_inf positive = (if positive then PosInf else NegInf)"

fun jsmul :: "jsnum \<Rightarrow> jsnum \<Rightarrow> jsnum" where
  "jsmul NaN _ = NaN"
| "jsmul _ NaN = NaN"
| "jsmul PosInf PosInf = PosInf"
| "jsmul PosInf NegInf = NegInf"
| "jsmul NegInf PosInf = NegInf"
| "jsmul NegInf NegInf = PosInf"
| "jsmul PosInf (Fin b) = (if b = 0 then NaN else signed_inf (0 < b))"
| "jsmul NegInf (Fin b) = (if b = 0 then NaN else signed_inf (b < 0))"
| "jsmul (Fin a) PosInf = (if a = 0 then NaN else signed_inf (0 < a))"
| "jsmul (Fin a) NegInf = (if a = 0 then NaN else signed_inf (a < 0))"
| "jsmul (Fin a) (Fin b) = Fin (a * b)"

definition strict_eq :: "jsnum \<Rightarrow> jsnum \<Rightarrow> bool" where
  "strict_eq a b = (a \<noteq> NaN \<and> b \<noteq> NaN \<and> a = b)"

definition number_of_count :: "nat \<Rightarrow> jsnum" where
  "number_of_count n = Fin (of_nat n)"

subsection \<open>Strings\<close>

text \<open>
  Strings are lists of code units below 256. The white space of \<open>\s\<close>, of
  \<open>trim\<close> and of \<open>parseFloat\<close> in that range is tab, line feed, vertical tab,
  form feed, carriage return, space and the no-break space.
\<close>

definition isWhiteSpace :: "char \<Rightarrow> bool" where
  "isWhiteSpace c = (of_char c \<in> {9::nat, 10, 11, 12, 13, 32, 160})"

definition isDigit :: "char \<Rightarrow> bool" where
  "isDigit c = (48 \<le> (of_char c :: nat) \<and> (of_char c :: nat) \<le> 57)"

definition digitValue :: "char \<Rightarrow> nat" where
  "digitValue c = of_char c - 48"

definition digitsValue :: "string \<Rightarrow> nat" where
  "digitsValue ds = foldl (\<lambda>n c. 10 * n + digitValue c) 0 ds"

definition trim :: "string \<Rightarrow> string" where
  "trim s = rev (dropWhile isWhiteSpace (rev (dropWhile isWhiteSpace s)))"

subsection \<open>\<open>parseFloat\<close>\<close>

text \<open>
  \<open>parseFloat\<close> skips leading white space and reads the longest prefix that is a
  decimal literal: an optional sign, then \<open>Infinity\<close>, or digits with an optional
  fraction and an optional exponent. The exponent counts only when at least one digit
  follows the \<open>e\<close> and its sign. With no such prefix the result is \<open>NaN\<close>.
\<close>

definition exponentPart :: "string \<Rightarrow> int" where
  "exponentPart r =
     (case r of
        [] \<Rightarrow> 0
      | c # r1 \<Rightarrow>
          if c = CHR ''e'' \<or> c = CHR ''E'' then
            (case r1 of
               [] \<Rightarrow> 0
             | d # r2 \<Rightarrow>
                 if d = CHR ''-'' then
                   (if takeWhile isDigit r2 = [] then 0
                    else - int (digitsValue (takeWhile isDigit r2)))
                 else if d = CHR ''+'' then int (digitsValue (takeWhile isDigit r2))
                 else int (digitsValue (takeWhile isDigit r1)))
          else 0)"

definition scale10 :: "rat \<Rightarrow> int \<Rightarrow> rat" where
  "scale10 m e = (if 0 \<le> e then m * 10 ^ nat e else m / 10 ^ nat (- e))"

definition unsignedLiteral :: "string \<Rightarrow> rat option" where
  "unsignedLiteral u =
     (let intDigits = takeWhile isDigit u;
          r1 = dropWhile isDigit u;
          fracDigits = (case r1 of [] \<Rightarrow> [] | c # r \<Rightarrow>
                          if c = CHR ''.'' then takeWhile isDigit r else []);
          r2 = (case r1 of [] \<Rightarrow> [] | c # r \<Rightarrow>
                  if c = CHR ''.'' then dropWhile isDigit r else r1)
      in if intDigits = [] \<and> fracDigits = [] then None
         else Some (scale10
                (of_nat (digitsValue intDigits)
                   + of_nat (digitsValue fracDigits) / 10 ^ length fracDigits)
                (exponentPart r2)))"

definition parseFloat :: "string \<Rightarrow> jsnum" where
  "parseFloat s =
     (let t = dropWhile isWhiteSpace s;
          negative = (case t of [] \<Rightarrow> False | c # _ \<Rightarrow> c = CHR ''-'');
          u = (case t of [] \<Rightarrow> [] | c # r \<Rightarrow>
                 if c = CHR ''-'' \<or> c = CHR ''+'' then r else t)
      in if take 8 u = ''Infinity'' then signed_inf (\<not> negative)
         else (case unsignedLiteral u of
                 None \<Rightarrow> NaN
               | Some m \<Rightarrow> Fin (if negative then - m else m)))"

section \<open>BaseComponent\<close>

text \<open>
  A component holds its name, the state snapshot (an object, here a map from property
  names to values) and the subscribed observers. Observers are callbacks supplied from
  outside; the component's effect on them is the sequence of calls it makes, kept in
  \<open>notified\<close>: each entry is the observer called and the snapshot passed to it. An
  observer is taken to return, and not to call back into the component while it is being
  notified. The field \<open>name\<close> of the script is \<open>cname\<close> here, \<open>name\<close> being the
  field of a product. Console output (\<open>log\<close>) is not part of the model.
\<close>

record ('v, 'o) BaseComponent =
  cname :: string
  state :: "string \<rightharpoonup> 'v"
  observers :: "'o list"
  notified :: "('o \<times> (string \<rightharpoonup> 'v)) list"

definition new_BaseComponent :: "string \<Rightarrow> ('v, 'o) BaseComponent" where
  "new_BaseComponent n = \<lparr>cname = n, state = Map.empty, observers = [], notified = []\<rparr>"

definition subscribe ::
  "'o \<Rightarrow> ('v, 'o, 'z) BaseComponent_scheme \<Rightarrow> ('v, 'o, 'z) BaseComponent_scheme" where
  "subscribe observer c = c\<lparr>observers := observers c @ [observer]\<rparr>"

definition notify ::
  "('v, 'o, 'z) BaseComponent_scheme \<Rightarrow> ('v, 'o, 'z) BaseComponent_scheme" where
  "notify c = c\<lparr>notified := notified c @ map (\<lambda>observer. (observer, state c)) (observers c)\<rparr>"

definition setState ::
  "(string \<rightharpoonup> 'v) \<Rightarrow> ('v, 'o, 'z) BaseComponent_scheme \<Rightarrow> ('v, 'o, 'z) BaseComponent_scheme" where
  "setState newState c = notify (c\<lparr>state := state c ++ newState\<rparr>)"

text \<open>
  As a value, the copy that \<open>getState\<close> returns is the snapshot. Who shares what with
  the copy is the subject of the model by reference further down.
\<close>

definition getState :: "('v, 'o, 'z) BaseComponent_scheme \<Rightarrow> (string \<rightharpoonup> 'v)" where
  "getState c = state c"

section \<open>Cart\<close>

text \<open>
  A product is the object that \<open>handleAddToCart\<close> builds: a name and a price text. An
  item is a product with a quantity. Quantities are counts, and the model keeps them as
  natural numbers. A notification record has its id, the message, the type and the
  timestamp; \<open>id\<close> and \<open>type\<close> of the script are \<open>nid\<close> and \<open>ntype\<close> here.
\<close>

record product =
  name :: string
  price :: string

record item = product +
  quantity :: nat

record notification =
  nid :: nat
  message :: string
  ntype :: string
  timestamp :: nat

text \<open>The values the components publish in their snapshots.\<close>

datatype sval =
  Items "item list"
| Number jsnum
| Notifications "notification list"

record 'o Cart = "(sval, 'o) BaseComponent" +
  items :: "item list"
  totalPrice :: jsnum

definition new_Cart :: "'o Cart" where
  "new_Cart = \<lparr>cname = ''Cart'', state = Map.empty, observers = [], notified = [],
               items = [], totalPrice = Fin 0\<rparr>"

definition calculateTotal :: "('o, 'z) Cart_scheme \<Rightarrow> ('o, 'z) Cart_scheme" where
  "calculateTotal c =
     c\<lparr>totalPrice :=
         foldl (\<lambda>total item.
                  jsadd total (jsmul (parseFloat (price item)) (number_of_count (quantity item))))
           (Fin 0) (items c)\<rparr>"

text \<open>
  \<open>addItem\<close> looks for the first item with the product's name. When there is one, the
  script increments the quantity of that object in place; in the list this is the update
  at the position where \<open>find\<close> stopped. Otherwise a fresh object with the product's
  fields and quantity 1 is pushed.
\<close>

definition addItem :: "product \<Rightarrow> ('o, 'z) Cart_scheme \<Rightarrow> ('o, 'z) Cart_scheme" where
  "addItem product c =
     (let c1 =
        (case find (\<lambda>item. name item = name product) (items c) of
           Some existingItem \<Rightarrow>
             c\<lparr>items :=
                 (items c)[length (takeWhile (\<lambda>item. name item \<noteq> name product) (items c)) :=
                             existingItem\<lparr>quantity := quantity existingItem + 1\<rparr>]\<rparr>
         | None \<Rightarrow>
             c\<lparr>items := items c @
                 [\<lparr>name = name product, price = price product, quantity = 1\<rparr>]\<rparr>);
          c2 = calculateTotal c1
      in setState [''items'' \<mapsto> Items (items c2), ''totalPrice'' \<mapsto> Number (totalPrice c2)] c2)"

definition removeItem :: "string \<Rightarrow> ('o, 'z) Cart_scheme \<Rightarrow> ('o, 'z) Cart_scheme" where
  "removeItem productName c =
     (let c1 = c\<lparr>items := filter (\<lambda>item. name item \<noteq> productName) (items c)\<rparr>;
          c2 = calculateTotal c1
      in setState [''items'' \<mapsto> Items (items c2), ''totalPrice'' \<mapsto> Number (totalPrice c2)] c2)"

definition getItemCount :: "('o, 'z) Cart_scheme \<Rightarrow> nat" where
  "getItemCount c = foldl (\<lambda>count item. count + quantity item) 0 (items c)"

definition clearCart :: "('o, 'z) Cart_scheme \<Rightarrow> ('o, 'z) Cart_scheme" where
  "clearCart c =
     setState [''items'' \<mapsto> Items [], ''totalPrice'' \<mapsto> Number (Fin 0)]
       (c\<lparr>items := [], totalPrice := Fin 0\<rparr>)"

subsection \<open>The derived total, the invariant and sequences of calls\<close>

text \<open>
  The total as the data model describes it: the sum over the items of unit price times
  quantity, where the unit price of an item is what \<open>parseFloat\<close> makes of its
  stored price text.
\<close>

definition unitPrice :: "item \<Rightarrow> jsnum" where
  "unitPrice item = parseFloat (price item)"

primrec derived_total :: "item list \<Rightarrow> jsnum" where
  "derived_total [] = Fin 0"
| "derived_total (item # rest) =
     jsadd (jsmul (unitPrice item) (number_of_count (quantity item))) (derived_total rest)"

definition cart_invariant :: "item list \<Rightarrow> bool" where
  "cart_invariant its = (distinct (map name its) \<and> list_all (\<lambda>item. 1 \<le> quantity item) its)"

datatype cart_op = AddItem product | RemoveItem string | ClearCart

fun apply_cart_op :: "('o, 'z) Cart_scheme \<Rightarrow> cart_op \<Rightarrow> ('o, 'z) Cart_scheme" where
  "apply_cart_op c (AddItem product) = addItem product c"
| "apply_cart_op c (RemoveItem productName) = removeItem productName c"
| "apply_cart_op c ClearCart = clearCart c"

definition run_cart :: "cart_op list \<Rightarrow> ('o, 'z) Cart_scheme \<Rightarrow> ('o, 'z) Cart_scheme" where
  "run_cart ops c = foldl apply_cart_op c ops"

section \<open>Notification\<close>

text \<open>
  The two clock reads of \<open>show\<close> (\<open>Date.now()\<close> for the id, \<open>new Date()\<close> for the
  timestamp) are arguments of the model, in milliseconds. An omitted argument of the
  script is \<open>None\<close> and takes the default of the parameter list. The calls that leave
  the component are kept as traces: \<open>toasts\<close> has one entry per \<open>displayToast\<close> call
  (the record and the duration), \<open>timers\<close> one entry per \<open>setTimeout\<close> of \<open>show\<close>
  (the delay and the id that the callback will pass to \<open>remove\<close>).
\<close>

record 'o Notification = "(sval, 'o) BaseComponent" +
  notifications :: "notification list"
  toasts :: "(notification \<times> nat) list"
  timers :: "(nat \<times> nat) list"

definition new_Notification :: "'o Notification" where
  "new_Notification = \<lparr>cname = ''Notification'', state = Map.empty, observers = [],
                       notified = [], notifications = [], toasts = [], timers = []\<rparr>"

definition displayToast ::
  "notification \<Rightarrow> nat \<Rightarrow> ('o, 'z) Notification_scheme \<Rightarrow> ('o, 'z) Notification_scheme" where
  "displayToast n duration c = c\<lparr>toasts := toasts c @ [(n, duration)]\<rparr>"

definition showNotification ::
  "string \<Rightarrow> string option \<Rightarrow> nat option \<Rightarrow> nat \<Rightarrow> nat \<Rightarrow>
   ('o, 'z) Notification_scheme \<Rightarrow> ('o, 'z) Notification_scheme" where
  "showNotification msg type_arg duration_arg now date c =
     (let type = (case type_arg of None \<Rightarrow> ''info'' | Some t \<Rightarrow> t);
          duration = (case duration_arg of None \<Rightarrow> 3000 | Some d \<Rightarrow> d);
          n = \<lparr>nid = now, message = msg, ntype = type, timestamp = date\<rparr>;
          c1 = c\<lparr>notifications := notifications c @ [n]\<rparr>;
          c2 = setState [''notifications'' \<mapsto> Notifications (notifications c1)] c1;
          c3 = displayToast n duration c2
      in c3\<lparr>timers := timers c3 @ [(duration, nid n)]\<rparr>)"

definition remove :: "nat \<Rightarrow> ('o, 'z) Notification_scheme \<Rightarrow> ('o, 'z) Notification_scheme" where
  "remove notificationId c =
     (let c1 = c\<lparr>notifications := filter (\<lambda>n. nid n \<noteq> notificationId) (notifications c)\<rparr>
      in setState [''notifications'' \<mapsto> Notifications (notifications c1)] c1)"

definition success ::
  "string \<Rightarrow> nat option \<Rightarrow> nat \<Rightarrow> nat \<Rightarrow>
   ('o, 'z) Notification_scheme \<Rightarrow> ('o, 'z) Notification_scheme" where
  "success msg duration = showNotification msg (Some ''success'') duration"









section \<open>FormValidator\<close>

text \<open>
  The pattern of \<open>validateEmail\<close> is \<open>^[^\s@]+@[^\s@]+\.[^\s@]+$\<close>: the text has
  exactly one \<open>@\<close> and no white space, something stands before the \<open>@\<close>, and what
  follows it has a dot that is neither its first nor its last character.
\<close>

definition validateEmail :: "string \<Rightarrow> bool" where
  "validateEmail email =
     (let local_part = takeWhile (\<lambda>c. c \<noteq> CHR ''@'') email;
          rest = dropWhile (\<lambda>c. c \<noteq> CHR ''@'') email
      in local_part \<noteq> [] \<and> \<not> list_ex isWhiteSpace email \<and>
         (case rest of
            [] \<Rightarrow> False
          | _ # domain_part \<Rightarrow>
              CHR ''@'' \<notin> set domain_part \<and> CHR ''.'' \<in> set (butlast (tl domain_part))))"

definition validateRequired :: "string \<Rightarrow> bool" where
  "validateRequired v = (length (trim v) > 0)"

definition validateMinLength :: "string \<Rightarrow> nat \<Rightarrow> bool" where
  "validateMinLength v minLength = (length v \<ge> minLength)"

text \<open>
  An object is given by its entries in the order of \<open>Object.entries\<close>. The errors object
  is built by assignment: an assignment to a key that is there replaces its value, an
  assignment to a new key adds the entry at the end.
\<close>

fun assign :: "string \<Rightarrow> 'v \<Rightarrow> (string \<times> 'v) list \<Rightarrow> (string \<times> 'v) list" where
  "assign k v [] = [(k, v)]"
| "assign k v ((k', v') # entries) =
     (if k' = k then (k, v) # entries else (k', v') # assign k v entries)"

record validation =
  isValid :: bool
  errors :: "(string \<times> string) list"

definition validate_field ::
  "(string \<times> string) list \<Rightarrow> string \<times> string \<Rightarrow> (string \<times> string) list" where
  "validate_field errs entry =
     (let fieldName = fst entry; v = snd entry;
          errs1 = (if fieldName = ''email'' then
                     (if \<not> validateEmail v then assign fieldName ''Invalid email format'' errs
                      else errs)
                   else errs)
      in if \<not> validateRequired v then assign fieldName ''This field is required'' errs1
         else errs1)"

definition validate :: "(string \<times> string) list \<Rightarrow> validation" where
  "validate formData =
     (let errs = foldl validate_field [] formData
      in \<lparr>isValid = (length (map fst errs) = 0), errors = errs\<rparr>)"

section \<open>Analytics\<close>

record event =
  ename :: string
  edata :: "(string \<times> string) list"
  etimestamp :: nat
  sessionDuration :: int

record 'o Analytics = "(event list, 'o) BaseComponent" +
  events :: "event list"
  sessionStart :: nat

definition new_Analytics :: "nat \<Rightarrow> 'o Analytics" where
  "new_Analytics date = \<lparr>cname = ''Analytics'', state = Map.empty, observers = [],
                          notified = [], events = [], sessionStart = date\<rparr>"

definition trackEvent ::
  "string \<Rightarrow> (string \<times> string) list \<Rightarrow> nat \<Rightarrow> nat \<Rightarrow>
   ('o, 'z) Analytics_scheme \<Rightarrow> ('o, 'z) Analytics_scheme" where
  "trackEvent eventName eventData date now c =
     (let ev = \<lparr>ename = eventName, edata = eventData, etimestamp = date,
                sessionDuration = int now - int (sessionStart c)\<rparr>;
          c1 = c\<lparr>events := events c @ [ev]\<rparr>
      in setState [''events'' \<mapsto> events c1] c1)"

definition trackProductInteraction ::
  "string \<Rightarrow> string \<Rightarrow> nat \<Rightarrow> nat \<Rightarrow>
   ('o, 'z) Analytics_scheme \<Rightarrow> ('o, 'z) Analytics_scheme" where
  "trackProductInteraction productName action =
     trackEvent ''product_interaction'' [(''productName'', productName), (''action'', action)]"

section \<open>VelouraApp\<close>

text \<open>
  The application holds the three stateful components and, of the page, the badge
  element \<open>cart-count\<close>: its text and its \<open>display\<close> style, or \<open>None\<close> when the page
  has no such element. \<open>handleAddToCart\<close> reads the clock four times, twice in
  \<open>show\<close> and twice in \<open>trackEvent\<close>; the readings are arguments. The decoration in
  front of the toast text is left out.
\<close>

record 'o VelouraApp =
  cart :: "'o Cart"
  notification :: "'o Notification"
  analytics :: "'o Analytics"
  cartCount :: "(nat \<times> string) option"

definition updateCartBadge :: "'o VelouraApp \<Rightarrow> 'o VelouraApp" where
  "updateCartBadge app =
     (case cartCount app of
        None \<Rightarrow> app
      | Some _ \<Rightarrow>
          (let count = getItemCount (cart app)
           in app\<lparr>cartCount := Some (count, if count > 0 then ''flex'' else ''none'')\<rparr>))"

definition priceClean :: "string \<Rightarrow> string" where
  "priceClean productPrice = filter (\<lambda>c. isDigit c \<or> c = CHR ''.'') productPrice"

definition handleAddToCart ::
  "string \<Rightarrow> string \<Rightarrow> nat \<Rightarrow> nat \<Rightarrow> nat \<Rightarrow> nat \<Rightarrow> 'o VelouraApp \<Rightarrow> 'o VelouraApp" where
  "handleAddToCart productName productPrice now1 date1 date2 now2 app =
     (let product = \<lparr>name = productName, price = priceClean productPrice\<rparr>;
          app1 = app\<lparr>cart := addItem product (cart app)\<rparr>;
          app2 = app1\<lparr>notification :=
                   success (productName @ '' added to cart!'') None now1 date1
                     (notification app1)\<rparr>;
          app3 = app2\<lparr>analytics :=
                   trackProductInteraction productName ''add_to_cart'' date2 now2
                     (analytics app2)\<rparr>
      in updateCartBadge app3)"

text \<open>
  The constructor makes the three components; \<open>init\<close> then records the start event
  and sets the badge. The arguments are the clock readings (the start of the session,
  then the two reads of \<open>trackEvent\<close>) and the badge element of the page. The wiring
  of the page's events to the handlers is not part of the model.
\<close>

definition new_VelouraApp :: "nat \<Rightarrow> nat \<Rightarrow> nat \<Rightarrow> (nat \<times> string) option \<Rightarrow> 'o VelouraApp" where
  "new_VelouraApp start date now badge =
     updateCartBadge
       \<lparr>cart = new_Cart, notification = new_Notification,
        analytics = trackEvent ''app_initialized'' [] date now (new_Analytics start),
        cartCount = badge\<rparr>"

section \<open>Objects and arrays by reference\<close>

text \<open>
  In the sections above an object or an array is its value. The script, however, hands
  out references: \<open>setState\<close> is given \<open>this.items\<close>, the array itself, and
  \<open>getState\<close> copies the snapshot one level deep. Where a property depends on who shares
  what, the components are modelled over a store. A cell of the store is a plain object
  (its entries in insertion order), an array of references to item objects, or an item
  object; an address is a position in the store, and allocation appends a cell.
\<close>

type_synonym addr = nat

datatype jsval = Undefined | Num jsnum | Str string | Ref addr

datatype cell =
  Object "(string \<times> jsval) list"
| Array "addr list"
| ItemObject item

type_synonym store = "cell list"

definition alloc :: "cell \<Rightarrow> store \<Rightarrow> addr \<times> store" where
  "alloc v h = (length h, h @ [v])"

definition properties :: "store \<Rightarrow> addr \<Rightarrow> (string \<times> jsval) list" where
  "properties h a =
     (if a < length h then (case h ! a of Object entries \<Rightarrow> entries | _ \<Rightarrow> []) else [])"

definition elements :: "store \<Rightarrow> addr \<Rightarrow> addr list" where
  "elements h a =
     (if a < length h then (case h ! a of Array els \<Rightarrow> els | _ \<Rightarrow> []) else [])"

definition item_at :: "store \<Rightarrow> addr \<Rightarrow> item option" where
  "item_at h a =
     (if a < length h then (case h ! a of ItemObject it \<Rightarrow> Some it | _ \<Rightarrow> None) else None)"

text \<open>\<open>{...target, ...source}\<close>: the entries of the source are assigned in order.\<close>

definition spread ::
  "(string \<times> jsval) list \<Rightarrow> (string \<times> jsval) list \<Rightarrow> (string \<times> jsval) list" where
  "spread target source = foldl (\<lambda>entries kv. assign (fst kv) (snd kv) entries) target source"

text \<open>
  The component by reference: \<open>this.state\<close> is the address of the snapshot object, and
  an observer is called with that address, the snapshot object itself.
\<close>

record 'o BaseComponent_ref =
  this_state :: addr
  this_observers :: "'o list"
  this_notified :: "('o \<times> addr) list"

definition notify_ref ::
  "('o, 'z) BaseComponent_ref_scheme \<Rightarrow> ('o, 'z) BaseComponent_ref_scheme" where
  "notify_ref c =
     c\<lparr>this_notified :=
         this_notified c @ map (\<lambda>observer. (observer, this_state c)) (this_observers c)\<rparr>"

definition setState_ref ::
  "(string \<times> jsval) list \<Rightarrow> ('o, 'z) BaseComponent_ref_scheme \<times> store \<Rightarrow>
   ('o, 'z) BaseComponent_ref_scheme \<times> store" where
  "setState_ref newState ch =
     (let c = fst ch; h = snd ch;
          merged = alloc (Object (spread (properties h (this_state c)) newState)) h
      in (notify_ref (c\<lparr>this_state := fst merged\<rparr>), snd merged))"


text \<open>
  The cart by reference: \<open>this.items\<close> is the address of the array. \<open>addItem\<close>
  changes the found item object or the array in place, \<open>removeItem\<close> and
  \<open>clearCart\<close> make \<open>this.items\<close> a new array. \<open>addItem\<close> and \<open>removeItem\<close>
  pass the address of \<open>this.items\<close> to \<open>setState\<close>, \<open>clearCart\<close> that of one
  more empty array. An element of the array that is not an item object has no name, price
  or quantity: \<open>find\<close> passes it by, and in the total it counts as \<open>NaN\<close>.
\<close>

record 'o Cart_ref = "'o BaseComponent_ref" +
  this_items :: addr
  this_totalPrice :: jsnum

definition new_Cart_ref :: "store \<Rightarrow> 'o Cart_ref \<times> store" where
  "new_Cart_ref h =
     (let s = alloc (Object []) h;
          i = alloc (Array []) (snd s)
      in (\<lparr>this_state = fst s, this_observers = [], this_notified = [],
           this_items = fst i, this_totalPrice = Fin 0\<rparr>, snd i))"

definition calculateTotal_ref ::
  "('o, 'z) Cart_ref_scheme \<times> store \<Rightarrow> ('o, 'z) Cart_ref_scheme \<times> store" where
  "calculateTotal_ref ch =
     (let c = fst ch; h = snd ch
      in (c\<lparr>this_totalPrice :=
              foldl (\<lambda>total a.
                       jsadd total
                         (case item_at h a of
                            Some item \<Rightarrow>
                              jsmul (parseFloat (price item)) (number_of_count (quantity item))
                          | None \<Rightarrow> NaN))
                (Fin 0) (elements h (this_items c))\<rparr>, h))"

definition addItem_ref ::
  "product \<Rightarrow> ('o, 'z) Cart_ref_scheme \<times> store \<Rightarrow> ('o, 'z) Cart_ref_scheme \<times> store" where
  "addItem_ref product ch =
     (let c = fst ch; h = snd ch;
          h1 =
            (case find (\<lambda>a. map_option name (item_at h a) = Some (name product))
                    (elements h (this_items c)) of
               Some existingItem \<Rightarrow>
                 (case item_at h existingItem of
                    Some item \<Rightarrow> h[existingItem := ItemObject (item\<lparr>quantity := quantity item + 1\<rparr>)]
                  | None \<Rightarrow> h)
             | None \<Rightarrow>
                 (let pushed = alloc (ItemObject
                        \<lparr>name = name product, price = price product, quantity = 1\<rparr>) h
                  in (snd pushed)[this_items c :=
                        Array (elements h (this_items c) @ [fst pushed])]));
          c2 = fst (calculateTotal_ref (c, h1))
      in setState_ref
           [(''items'', Ref (this_items c2)), (''totalPrice'', Num (this_totalPrice c2))]
           (c2, h1))"

definition removeItem_ref ::
  "string \<Rightarrow> ('o, 'z) Cart_ref_scheme \<times> store \<Rightarrow> ('o, 'z) Cart_ref_scheme \<times> store" where
  "removeItem_ref productName ch =
     (let c = fst ch; h = snd ch;
          filtered = alloc (Array (filter (\<lambda>a. map_option name (item_at h a) \<noteq> Some productName)
                                     (elements h (this_items c)))) h;
          c2 = fst (calculateTotal_ref (c\<lparr>this_items := fst filtered\<rparr>, snd filtered))
      in setState_ref
           [(''items'', Ref (this_items c2)), (''totalPrice'', Num (this_totalPrice c2))]
           (c2, snd filtered))"

definition clearCart_ref ::
  "('o, 'z) Cart_ref_scheme \<times> store \<Rightarrow> ('o, 'z) Cart_ref_scheme \<times> store" where
  "clearCart_ref ch =
     (let c = fst ch; h = snd ch;
          emptied = alloc (Array []) h;
          published = alloc (Array []) (snd emptied)
      in setState_ref [(''items'', Ref (fst published)), (''totalPrice'', Num (Fin 0))]
           (c\<lparr>this_items := fst emptied, this_totalPrice := Fin 0\<rparr>, snd published))"






text \<open>
  The items of a cart by reference, read from the store, and the shape of the store that
  the cart's own operations keep: \<open>this.items\<close> is an array, its elements are
  different item objects. Sequences of calls run on the cart by reference as they do on
  the cart by value.
\<close>

definition cart_items :: "('o, 'z) Cart_ref_scheme \<times> store \<Rightarrow> item list" where
  "cart_items ch = List.map_filter (item_at (snd ch)) (elements (snd ch) (this_items (fst ch)))"

definition well_formed :: "('o, 'z) Cart_ref_scheme \<times> store \<Rightarrow> bool" where
  "well_formed ch =
     (let c = fst ch; h = snd ch
      in this_items c < length h \<and>
         (case h ! this_items c of Array _ \<Rightarrow> True | _ \<Rightarrow> False) \<and>
         distinct (elements h (this_items c)) \<and>
         list_all (\<lambda>a. item_at h a \<noteq> None) (elements h (this_items c)))"

fun apply_cart_op_ref ::
  "('o, 'z) Cart_ref_scheme \<times> store \<Rightarrow> cart_op \<Rightarrow> ('o, 'z) Cart_ref_scheme \<times> store" where
  "apply_cart_op_ref ch (AddItem product) = addItem_ref product ch"
| "apply_cart_op_ref ch (RemoveItem productName) = removeItem_ref productName ch"
| "apply_cart_op_ref ch ClearCart = clearCart_ref ch"

definition run_cart_ref ::
  "cart_op list \<Rightarrow> ('o, 'z) Cart_ref_scheme \<times> store \<Rightarrow> ('o, 'z) Cart_ref_scheme \<times> store" where
  "run_cart_ref ops ch = foldl apply_cart_op_ref ch ops"

section \<open>Properties of the cart\<close>

lemma jsadd_assoc: "jsadd (jsadd a b) c = jsadd a (jsadd b c)"
  by (cases a; cases b; cases c; simp)

lemma jsadd_zero_left: "jsadd (Fin 0) a = a"
  by (cases a; simp)

lemma jsadd_zero_right: "jsadd a (Fin 0) = a"
  by (cases a; simp)

lemma jsadd_NaN_right: "jsadd a NaN = NaN"
  by (cases a; simp)

lemma jsmul_NaN_left: "jsmul NaN a = NaN"
  by simp

lemma reduce_total:
  "foldl (\<lambda>total item.
            jsadd total (jsmul (parseFloat (price item)) (number_of_count (quantity item))))
     a its = jsadd a (derived_total its)"
  by (induction its arbitrary: a) (simp_all add: jsadd_zero_right jsadd_assoc unitPrice_def)

lemma items_setState: "items (setState s c) = items c"
  by (simp add: setState_def notify_def)

lemma totalPrice_setState: "totalPrice (setState s c) = totalPrice c"
  by (simp add: setState_def notify_def)

lemma items_calculateTotal: "items (calculateTotal c) = items c"
  by (simp add: calculateTotal_def)

lemma totalPrice_calculateTotal: "totalPrice (calculateTotal c) = derived_total (items c)"
  by (simp add: calculateTotal_def reduce_total jsadd_zero_left)

lemma find_position:
  "find P xs = Some x \<Longrightarrow>
     length (takeWhile (\<lambda>y. \<not> P y) xs) < length xs \<and>
     xs ! length (takeWhile (\<lambda>y. \<not> P y) xs) = x \<and> P x"
  by (induction xs) (auto split: if_splits)

lemma items_addItem_new:
  "name product \<notin> set (map name (items c)) \<Longrightarrow>
   items (addItem product c) =
     items c @ [\<lparr>name = name product, price = price product, quantity = 1\<rparr>]"
proof -
  assume "name product \<notin> set (map name (items c))"
  then have "find (\<lambda>item. name item = name product) (items c) = None"
    by (force simp: find_None_iff)
  then show ?thesis
    by (simp add: addItem_def Let_def items_setState items_calculateTotal)
qed

lemma items_addItem_existing:
  assumes "name product \<in> set (map name (items c))"
  shows "\<exists>k existingItem. k < length (items c) \<and> items c ! k = existingItem \<and>
           name existingItem = name product \<and>
           k = length (takeWhile (\<lambda>item. name item \<noteq> name product) (items c)) \<and>
           items (addItem product c) =
             (items c)[k := existingItem\<lparr>quantity := quantity existingItem + 1\<rparr>]"
proof -
  from assms obtain x where fx: "find (\<lambda>item. name item = name product) (items c) = Some x"
    by (cases "find (\<lambda>item. name item = name product) (items c)") (force simp: find_None_iff)+
  from find_position [OF fx] fx show ?thesis
    by (simp add: addItem_def Let_def items_setState items_calculateTotal)
qed

lemma totalPrice_addItem: "totalPrice (addItem product c) = derived_total (items (addItem product c))"
  by (simp add: addItem_def Let_def items_setState totalPrice_setState items_calculateTotal totalPrice_calculateTotal)

lemma totalPrice_removeItem: "totalPrice (removeItem n c) = derived_total (items (removeItem n c))"
  by (simp add: removeItem_def Let_def items_setState totalPrice_setState items_calculateTotal totalPrice_calculateTotal)

lemma items_removeItem: "items (removeItem n c) = filter (\<lambda>item. name item \<noteq> n) (items c)"
  by (simp add: removeItem_def Let_def items_setState items_calculateTotal)

lemma items_clearCart: "items (clearCart c) = []"
  by (simp add: clearCart_def items_setState)

lemma totalPrice_clearCart: "totalPrice (clearCart c) = Fin 0"
  by (simp add: clearCart_def totalPrice_setState)




lemma name_update_same:
  "k < length xs \<Longrightarrow> map name (xs[k := (xs ! k)\<lparr>quantity := q\<rparr>]) = map name xs"
  by (simp add: map_update list_update_same_conv)

lemma price_update_same:
  "k < length xs \<Longrightarrow> map price (xs[k := (xs ! k)\<lparr>quantity := q\<rparr>]) = map price xs"
  by (simp add: map_update list_update_same_conv)

lemma names_addItem_existing:
  assumes "name product \<in> set (map name (items c))"
  shows "map name (items (addItem product c)) = map name (items c)"
    and "map price (items (addItem product c)) = map price (items c)"
    and "length (items (addItem product c)) = length (items c)"
  using items_addItem_existing [OF assms]
  by (auto simp: name_update_same price_update_same)

lemma quantities_addItem_existing:
  assumes "name product \<in> set (map name (items c))"
      and "list_all (\<lambda>item. 1 \<le> quantity item) (items c)"
  shows "list_all (\<lambda>item. 1 \<le> quantity item) (items (addItem product c))"
proof -
  from items_addItem_existing [OF assms(1)] obtain k where
    k: "k < length (items c)" and
    eq: "items (addItem product c) =
           (items c)[k := (items c ! k)\<lparr>quantity := quantity (items c ! k) + 1\<rparr>]"
    by auto
  have "set ((items c)[k := (items c ! k)\<lparr>quantity := quantity (items c ! k) + 1\<rparr>])
          \<subseteq> insert ((items c ! k)\<lparr>quantity := quantity (items c ! k) + 1\<rparr>) (set (items c))"
    by (rule set_update_subset_insert)
  with assms(2) show ?thesis
    unfolding eq list_all_iff by auto
qed

text \<open>
  Claim C9. Each cart operation preserves the invariant of the items list: at most one
  item per name, and every quantity at least 1. If the list satisfies it before
  \<open>addItem\<close>, \<open>removeItem\<close> or \<open>clearCart\<close>, it satisfies it after.
\<close>

theorem cart_invariant_preserved:
  assumes "cart_invariant (items c)"
  shows "cart_invariant (items (addItem product c))
       \<and> cart_invariant (items (removeItem productName c))
       \<and> cart_invariant (items (clearCart c))"
proof (intro conjI)
  show "cart_invariant (items (addItem product c))"
  proof (cases "name product \<in> set (map name (items c))")
    case True
    from assms have d: "distinct (map name (items c))"
      and q: "list_all (\<lambda>item. 1 \<le> quantity item) (items c)"
      unfolding cart_invariant_def by blast+
    from d names_addItem_existing(1) [OF True] quantities_addItem_existing [OF True q]
    show ?thesis
      unfolding cart_invariant_def by simp
  next
    case False
    with assms show ?thesis
      by (simp add: cart_invariant_def items_addItem_new)
  qed
next
  from assms show "cart_invariant (items (removeItem productName c))"
    by (simp add: cart_invariant_def items_removeItem distinct_map_filter list_all_iff)
next
  show "cart_invariant (items (clearCart c))"
    by (simp add: cart_invariant_def items_clearCart)
qed

theorem cart_invariant_preserved_witness:
  "cart_invariant (items (addItem \<lparr>name = ''Lamp'', price = ''199.99''\<rparr> (new_Cart :: nat Cart)))
   \<and> cart_invariant (items (addItem \<lparr>name = ''Lamp'', price = ''199.99''\<rparr>
         (addItem \<lparr>name = ''Lamp'', price = ''199.99''\<rparr> (new_Cart :: nat Cart))))
   \<and> cart_invariant (items (removeItem ''Vase''
         (addItem \<lparr>name = ''Lamp'', price = ''199.99''\<rparr> (new_Cart :: nat Cart))))
   \<and> cart_invariant (items (clearCart
         (addItem \<lparr>name = ''Lamp'', price = ''199.99''\<rparr> (new_Cart :: nat Cart))))"
proof -
  have h: "cart_invariant (items (addItem \<lparr>name = ''Lamp'', price = ''199.99''\<rparr> (new_Cart :: nat Cart)))"
    by code_simp
  from h cart_invariant_preserved [OF h] show ?thesis by blast
qed

text \<open>
  Claim C10. The items list stays in first-insertion order. \<open>addItem\<close> on a name that
  is in the cart changes one position of the list, that of the first item of this name,
  and there only the quantity, which grows by 1: the sequence of names (and of stored
  prices) is as it was. \<open>addItem\<close> on a new name appends the new item at the end.
  \<open>removeItem\<close> leaves a subsequence of the list, so the items that remain keep their
  relative order.
\<close>

theorem insertion_order_kept:
  "(name product \<in> set (map name (items c)) \<longrightarrow>
      (\<exists>k. k < length (items c) \<and> name (items c ! k) = name product \<and>
           items (addItem product c) =
             (items c)[k := (items c ! k)\<lparr>quantity := quantity (items c ! k) + 1\<rparr>]) \<and>
      map name (items (addItem product c)) = map name (items c) \<and>
      map price (items (addItem product c)) = map price (items c))
   \<and> (name product \<notin> set (map name (items c)) \<longrightarrow>
      items (addItem product c) =
        items c @ [\<lparr>name = name product, price = price product, quantity = 1\<rparr>])
   \<and> subseq (items (removeItem productName c)) (items c)"
proof (intro conjI impI)
  assume e: "name product \<in> set (map name (items c))"
  from items_addItem_existing [OF e]
  show "\<exists>k. k < length (items c) \<and> name (items c ! k) = name product \<and>
           items (addItem product c) =
             (items c)[k := (items c ! k)\<lparr>quantity := quantity (items c ! k) + 1\<rparr>]"
    by blast
  from e show "map name (items (addItem product c)) = map name (items c)"
    by (rule names_addItem_existing(1))
  from e show "map price (items (addItem product c)) = map price (items c)"
    by (rule names_addItem_existing(2))
next
  assume "name product \<notin> set (map name (items c))"
  then show "items (addItem product c) =
        items c @ [\<lparr>name = name product, price = price product, quantity = 1\<rparr>]"
    by (rule items_addItem_new)
next
  show "subseq (items (removeItem productName c)) (items c)"
    by (simp add: items_removeItem)
qed

theorem insertion_order_kept_witness:
  "name \<lparr>name = ''Lamp'', price = ''7''\<rparr>
     \<in> set (map name (items (addItem \<lparr>name = ''Vase'', price = ''5''\<rparr>
           (addItem \<lparr>name = ''Lamp'', price = ''3''\<rparr> (new_Cart :: nat Cart)))))
   \<and> map name (items (addItem \<lparr>name = ''Lamp'', price = ''7''\<rparr>
         (addItem \<lparr>name = ''Vase'', price = ''5''\<rparr>
           (addItem \<lparr>name = ''Lamp'', price = ''3''\<rparr> (new_Cart :: nat Cart))))) = [''Lamp'', ''Vase'']
   \<and> name \<lparr>name = ''Bowl'', price = ''2''\<rparr>
     \<notin> set (map name (items (addItem \<lparr>name = ''Vase'', price = ''5''\<rparr>
           (addItem \<lparr>name = ''Lamp'', price = ''3''\<rparr> (new_Cart :: nat Cart)))))
   \<and> map name (items (addItem \<lparr>name = ''Bowl'', price = ''2''\<rparr>
         (addItem \<lparr>name = ''Vase'', price = ''5''\<rparr>
           (addItem \<lparr>name = ''Lamp'', price = ''3''\<rparr> (new_Cart :: nat Cart))))) =
        [''Lamp'', ''Vase'', ''Bowl'']
   \<and> subseq (items (removeItem ''Lamp'' (addItem \<lparr>name = ''Vase'', price = ''5''\<rparr>
           (addItem \<lparr>name = ''Lamp'', price = ''3''\<rparr> (new_Cart :: nat Cart)))))
        (items (addItem \<lparr>name = ''Vase'', price = ''5''\<rparr>
           (addItem \<lparr>name = ''Lamp'', price = ''3''\<rparr> (new_Cart :: nat Cart))))"
proof -
  let ?c = "addItem \<lparr>name = ''Vase'', price = ''5''\<rparr>
              (addItem \<lparr>name = ''Lamp'', price = ''3''\<rparr> (new_Cart :: nat Cart))"
  have i: "items ?c = [\<lparr>name = ''Lamp'', price = ''3'', quantity = 1\<rparr>,
                      \<lparr>name = ''Vase'', price = ''5'', quantity = 1\<rparr>]"
    by code_simp
  from insertion_order_kept [of "\<lparr>name = ''Lamp'', price = ''7''\<rparr>" ?c "''Lamp''"]
       insertion_order_kept [of "\<lparr>name = ''Bowl'', price = ''2''\<rparr>" ?c "''Lamp''"]
  show ?thesis
    by (simp add: i)
qed

lemma derived_total_append:
  "derived_total (xs @ ys) = jsadd (derived_total xs) (derived_total ys)"
  by (induction xs) (simp_all add: jsadd_zero_left jsadd_assoc)





lemma cart_handleAddToCart:
  "cart (handleAddToCart productName productPrice now1 date1 date2 now2 app) =
     addItem \<lparr>name = productName, price = priceClean productPrice\<rparr> (cart app)"
  by (simp add: handleAddToCart_def updateCartBadge_def Let_def split: option.splits)

text \<open>
  Claim C1, as amended. \<open>handleAddToCart\<close> with a product name that is not yet in the
  cart and a price text that is non-numeric after stripping returns normally, stores the
  item with the stripped price text and quantity 1, and the stored total is \<open>NaN\<close>:
  the item's price is not replaced by 0.
\<close>

theorem malformed_price_gives_NaN:
  assumes "parseFloat (priceClean productPrice) = NaN"
      and "productName \<notin> set (map name (items (cart app)))"
  shows "items (cart (handleAddToCart productName productPrice now1 date1 date2 now2 app)) =
           items (cart app) @
             [\<lparr>name = productName, price = priceClean productPrice, quantity = 1\<rparr>]
       \<and> totalPrice (cart (handleAddToCart productName productPrice now1 date1 date2 now2 app)) = NaN"
proof -
  let ?p = "\<lparr>name = productName, price = priceClean productPrice\<rparr>"
  from assms(2) have "name ?p \<notin> set (map name (items (cart app)))"
    by simp
  from items_addItem_new [OF this]
  have i: "items (addItem ?p (cart app)) =
             items (cart app) @
               [\<lparr>name = productName, price = priceClean productPrice, quantity = 1\<rparr>]"
    by simp
  have "totalPrice (addItem ?p (cart app)) = NaN"
    by (simp add: totalPrice_addItem i derived_total_append unitPrice_def assms(1) jsadd_NaN_right)
  with i show ?thesis
    by (simp add: cart_handleAddToCart)
qed

theorem malformed_price_gives_NaN_witness:
  "parseFloat (priceClean ''free'') = NaN
   \<and> ''Lamp'' \<notin> set (map name (items (cart (new_VelouraApp 0 5 5 None :: nat VelouraApp))))
   \<and> items (cart (handleAddToCart ''Lamp'' ''free'' 2 2 2 2 (new_VelouraApp 0 5 5 None :: nat VelouraApp))) =
        [\<lparr>name = ''Lamp'', price = [], quantity = 1\<rparr>]
   \<and> totalPrice (cart (handleAddToCart ''Lamp'' ''free'' 2 2 2 2 (new_VelouraApp 0 5 5 None :: nat VelouraApp))) = NaN"
proof -
  have h1: "parseFloat (priceClean ''free'') = NaN"
    by code_simp
  have h2: "''Lamp'' \<notin> set (map name (items (cart (new_VelouraApp 0 5 5 None :: nat VelouraApp))))"
    by (simp add: new_VelouraApp_def updateCartBadge_def new_Cart_def)
  have e: "items (cart (new_VelouraApp 0 5 5 None :: nat VelouraApp)) = []"
    by (simp add: new_VelouraApp_def updateCartBadge_def new_Cart_def)
  have c: "priceClean ''free'' = []"
    by code_simp
  from malformed_price_gives_NaN [OF h1 h2, of 2 2 2 2] h1 h2 show ?thesis
    by (simp add: e c)
qed

text \<open>
  With a vase at 10 in the cart, adding a lamp whose price text is \<open>free\<close> stores the
  total \<open>NaN\<close>, while the sum over the other items is 10.
\<close>

theorem malformed_price_counterexample:
  "parseFloat (priceClean ''free'') = NaN
   \<and> derived_total (items (cart (handleAddToCart ''Vase'' ''$10.00'' 2 2 2 2
        (new_VelouraApp 0 5 5 None :: nat VelouraApp)))) = Fin 10
   \<and> totalPrice (cart (handleAddToCart ''Lamp'' ''free'' 3 3 3 3
        (handleAddToCart ''Vase'' ''$10.00'' 2 2 2 2
          (new_VelouraApp 0 5 5 None :: nat VelouraApp)))) = NaN"
  by code_simp

section \<open>Properties of the component base\<close>

lemma observers_subscribed:
  "observers (foldl (\<lambda>c observer. subscribe observer c) c obs) = observers c @ obs"
  by (induction obs arbitrary: c) (simp_all add: subscribe_def)

lemma state_subscribed:
  "state (foldl (\<lambda>c observer. subscribe observer c) c obs) = state c"
  by (induction obs arbitrary: c) (simp_all add: subscribe_def)

lemma notified_subscribed:
  "notified (foldl (\<lambda>c observer. subscribe observer c) c obs) = notified c"
  by (induction obs arbitrary: c) (simp_all add: subscribe_def)

text \<open>
  Claim C8. \<open>setState\<close> replaces the snapshot by the shallow merge: a key of the
  partial object takes the value from it, every other key keeps its value. It then calls
  each subscriber once, in the order of the \<open>observers\<close> list, with the complete new
  snapshot, and that list is in subscription order: observers subscribed one after the
  other are called after the earlier ones, in the order of their subscription. The
  function has no failing branch: it is total. Observers are callbacks from outside the
  component and are taken to return.
\<close>

theorem setState_merges_and_notifies:
  "state (setState partial c) k = (case partial k of Some v \<Rightarrow> Some v | None \<Rightarrow> state c k)
   \<and> observers (setState partial c) = observers c
   \<and> notified (setState partial c) =
       notified c @ map (\<lambda>observer. (observer, state (setState partial c))) (observers c)
   \<and> notified (setState partial (foldl (\<lambda>c observer. subscribe observer c) c obs)) =
       notified c @ map (\<lambda>observer. (observer, state (setState partial c))) (observers c @ obs)"
  by (simp add: setState_def notify_def map_add_def observers_subscribed state_subscribed
        notified_subscribed)

section \<open>Properties of the notifications\<close>

lemma notifications_setState: "notifications (setState s c) = notifications c"
  by (simp add: setState_def notify_def)


lemma notifications_remove:
  "notifications (remove i c) = filter (\<lambda>n. nid n \<noteq> i) (notifications c)"
  by (simp add: remove_def Let_def notifications_setState)

lemma notifications_show:
  "notifications (showNotification msg t d now date c) =
     notifications c @
       [\<lparr>nid = now, message = msg, ntype = (case t of None \<Rightarrow> ''info'' | Some ty \<Rightarrow> ty),
         timestamp = date\<rparr>]"
  by (simp add: showNotification_def Let_def notifications_setState displayToast_def)

lemma timers_show:
  "timers (showNotification msg t d now date c) =
     timers c @ [(case d of None \<Rightarrow> 3000 | Some ms \<Rightarrow> ms, now)]"
  by (simp add: showNotification_def Let_def displayToast_def setState_def notify_def)



text \<open>
  Claim C7. \<open>remove\<close> deletes every record with the given id and no other; when no
  record has the id the list is as before, so a second \<open>remove\<close> of the same id (the
  timer set by \<open>show\<close>, which calls \<open>remove\<close> with the new record's id, firing after
  an explicit removal) changes nothing; the function is total. \<open>show\<close> followed by
  \<open>remove\<close> of the new id leaves the records that were there before under another id,
  so none at all on a component with no other record, also after the timer has fired.
\<close>

theorem remove_idempotent:
  "notifications (remove i c) = filter (\<lambda>n. nid n \<noteq> i) (notifications c)
   \<and> i \<notin> set (map nid (notifications (remove i c)))
   \<and> (i \<notin> set (map nid (notifications c)) \<longrightarrow> notifications (remove i c) = notifications c)
   \<and> notifications (remove i (remove i c)) = notifications (remove i c)
   \<and> timers (showNotification msg t d now date c) =
       timers c @ [(case d of None \<Rightarrow> 3000 | Some ms \<Rightarrow> ms, now)]
   \<and> notifications (remove now (showNotification msg t d now date c)) =
       filter (\<lambda>n. nid n \<noteq> now) (notifications c)
   \<and> notifications (remove now (showNotification msg t d now date new_Notification)) = []
   \<and> notifications (remove now (remove now (showNotification msg t d now date new_Notification))) = []"
proof -
  have a: "i \<notin> set (map nid (notifications c)) \<longrightarrow>
             filter (\<lambda>n. nid n \<noteq> i) (notifications c) = notifications c"
    by (force simp: filter_id_conv)
  have b: "i \<notin> set (map nid (filter (\<lambda>n. nid n \<noteq> i) (notifications c)))"
    by force
  show ?thesis
    using a b by (simp add: notifications_remove notifications_show timers_show new_Notification_def)
qed

theorem remove_idempotent_witness:
  "5 \<notin> set (map nid (notifications (remove 5
       (showNotification ''x'' (Some ''error'') (Some 100) 5 5
          (new_Notification :: nat Notification)))))
   \<and> notifications (remove 5 (remove 5
       (showNotification ''x'' (Some ''error'') (Some 100) 5 5
          (new_Notification :: nat Notification)))) = []"
proof -
  let ?c = "remove 5 (showNotification ''x'' (Some ''error'') (Some 100) 5 5
              (new_Notification :: nat Notification))"
  have n: "notifications ?c = []"
    by code_simp
  have h: "5 \<notin> set (map nid (notifications ?c))"
    by (simp add: n)
  have "notifications (remove 5 ?c) = notifications ?c"
    using remove_idempotent [where i = 5 and c = ?c and msg = "''x''" and t = None
            and d = None and now = 5 and date = 5] h
    by blast
  with h n show ?thesis
    by simp
qed





section \<open>Properties of the form validator\<close>

lemma dot_at_not_white: "\<not> isWhiteSpace CHR ''.''" "\<not> isWhiteSpace CHR ''@''"
  by (simp_all add: isWhiteSpace_def)

text \<open>
  \<open>validateEmail\<close> accepts exactly the texts that the pattern matches: some characters,
  an \<open>@\<close>, some characters, a dot, some characters, where each run is non-empty and has
  neither white space nor \<open>@\<close>.
\<close>

lemma validateEmail_pattern:
  "validateEmail s \<longleftrightarrow>
     (\<exists>a b c. s = a @ ''@'' @ b @ ''.'' @ c \<and> a \<noteq> [] \<and> b \<noteq> [] \<and> c \<noteq> [] \<and>
        (\<forall>x \<in> set (a @ b @ c). \<not> isWhiteSpace x \<and> x \<noteq> CHR ''@''))"
proof
  assume v: "validateEmail s"
  define a where "a = takeWhile (\<lambda>c. c \<noteq> CHR ''@'') s"
  define rest where "rest = dropWhile (\<lambda>c. c \<noteq> CHR ''@'') s"
  from v have a: "a \<noteq> []" and w: "\<not> list_ex isWhiteSpace s"
    by (simp_all add: validateEmail_def Let_def a_def)
  from v obtain r0 d where rest: "rest = r0 # d"
    and noat: "CHR ''@'' \<notin> set d" and dot: "CHR ''.'' \<in> set (butlast (tl d))"
    by (auto simp: validateEmail_def Let_def rest_def split: list.splits)
  have "rest \<noteq> [] \<Longrightarrow> \<not> (hd rest \<noteq> CHR ''@'')"
    unfolding rest_def by (rule hd_dropWhile)
  with rest have r0: "r0 = CHR ''@''"
    by simp
  have "s = a @ rest"
    unfolding a_def rest_def by simp
  with rest r0 have s: "s = a @ CHR ''@'' # d"
    by simp
  from dot obtain u t where bl: "butlast (tl d) = u @ CHR ''.'' # t"
    by (auto dest: split_list)
  then have tlne: "tl d \<noteq> []"
    by auto
  then obtain d0 where d: "d = d0 # tl d"
    by (cases d) auto
  from tlne have "tl d = butlast (tl d) @ [last (tl d)]"
    by simp
  with bl have tl: "tl d = u @ CHR ''.'' # t @ [last (tl d)]"
    by simp
  define b where "b = d0 # u"
  define c where "c = t @ [last (tl d)]"
  from d tl have dd: "d = b @ CHR ''.'' # c"
    unfolding b_def c_def by (metis append_Cons)
  have s2: "s = a @ ''@'' @ b @ ''.'' @ c"
    using s dd by simp
  have bc: "b \<noteq> []" "c \<noteq> []"
    by (simp_all add: b_def c_def)
  have x1: "\<forall>x \<in> set a. x \<noteq> CHR ''@''"
    unfolding a_def by (auto dest: set_takeWhileD)
  from noat have x2: "\<forall>x \<in> set (b @ c). x \<noteq> CHR ''@''"
    unfolding dd by auto
  from w have "\<forall>x \<in> set s. \<not> isWhiteSpace x"
    by (simp add: list_ex_iff)
  then have x3: "\<forall>x \<in> set (a @ b @ c). \<not> isWhiteSpace x"
    unfolding s2 by auto
  from x1 x2 x3 have "\<forall>x \<in> set (a @ b @ c). \<not> isWhiteSpace x \<and> x \<noteq> CHR ''@''"
    by auto
  with s2 a bc show "\<exists>a b c. s = a @ ''@'' @ b @ ''.'' @ c \<and> a \<noteq> [] \<and> b \<noteq> [] \<and> c \<noteq> [] \<and>
        (\<forall>x \<in> set (a @ b @ c). \<not> isWhiteSpace x \<and> x \<noteq> CHR ''@'')"
    by blast
next
  assume "\<exists>a b c. s = a @ ''@'' @ b @ ''.'' @ c \<and> a \<noteq> [] \<and> b \<noteq> [] \<and> c \<noteq> [] \<and>
        (\<forall>x \<in> set (a @ b @ c). \<not> isWhiteSpace x \<and> x \<noteq> CHR ''@'')"
  then obtain a b c where s: "s = a @ CHR ''@'' # b @ CHR ''.'' # c"
    and ne: "a \<noteq> []" "b \<noteq> []" "c \<noteq> []"
    and ok: "\<forall>x \<in> set (a @ b @ c). \<not> isWhiteSpace x \<and> x \<noteq> CHR ''@''"
    by auto
  from ok have aa: "\<forall>x \<in> set a. x \<noteq> CHR ''@''"
    by simp
  have tw: "takeWhile (\<lambda>c. c \<noteq> CHR ''@'') s = a"
    unfolding s using aa by (simp add: takeWhile_append2 [of a "\<lambda>c. c \<noteq> CHR ''@''"])
  have dw: "dropWhile (\<lambda>c. c \<noteq> CHR ''@'') s = CHR ''@'' # b @ CHR ''.'' # c"
    unfolding s using aa by (simp add: dropWhile_append2 [of a "\<lambda>c. c \<noteq> CHR ''@''"])
  from ok have nw: "\<not> list_ex isWhiteSpace s"
    unfolding s by (auto simp: list_ex_iff dot_at_not_white)
  from ok have na: "CHR ''@'' \<notin> set (b @ CHR ''.'' # c)"
    by auto
  from ne have "tl (b @ CHR ''.'' # c) = tl b @ CHR ''.'' # c"
    by simp
  moreover from ne have "butlast (tl b @ CHR ''.'' # c) = tl b @ CHR ''.'' # butlast c"
    by (simp add: butlast_append)
  ultimately have dot: "CHR ''.'' \<in> set (butlast (tl (b @ CHR ''.'' # c)))"
    by simp
  from ne tw dw nw na dot show "validateEmail s"
    by (simp add: validateEmail_def Let_def)
qed

text \<open>
  A value that fails the non-empty check fails the format check as well.
\<close>

lemma blank_is_no_email: "\<not> validateRequired v \<Longrightarrow> \<not> validateEmail v"
proof -
  assume "\<not> validateRequired v"
  then have "dropWhile isWhiteSpace (rev (dropWhile isWhiteSpace v)) = []"
    by (simp add: validateRequired_def trim_def)
  then have "\<forall>c \<in> set (dropWhile isWhiteSpace v). isWhiteSpace c"
    by (simp add: dropWhile_eq_Nil_conv)
  then have "dropWhile isWhiteSpace v = []"
    by (metis dropWhile_eq_Nil_conv hd_dropWhile hd_in_set)
  then have all: "\<forall>c \<in> set v. isWhiteSpace c"
    by (simp add: dropWhile_eq_Nil_conv)
  show "\<not> validateEmail v"
  proof (cases v)
    case Nil
    then show ?thesis by (simp add: validateEmail_def)
  next
    case (Cons c cs)
    with all have "list_ex isWhiteSpace v" by (simp add: list_ex_iff)
    then show ?thesis by (simp add: validateEmail_def Let_def)
  qed
qed

lemma map_of_assign: "map_of (assign k v entries) = (map_of entries)(k \<mapsto> v)"
  by (induction k v entries rule: assign.induct) (auto simp: fun_eq_iff)

lemma map_of_validate_field:
  "map_of (validate_field errs (f, v)) k =
     (if k = f \<and> \<not> validateRequired v then Some ''This field is required''
      else if k = f \<and> f = ''email'' \<and> \<not> validateEmail v then Some ''Invalid email format''
      else map_of errs k)"
  by (simp add: validate_field_def Let_def map_of_assign)

lemma map_of_validate_other:
  "k \<notin> fst ` set formData \<Longrightarrow> map_of (foldl validate_field errs formData) k = map_of errs k"
proof (induction formData arbitrary: errs)
  case Nil
  show ?case by simp
next
  case (Cons entry formData)
  obtain f v where e: "entry = (f, v)" by (cases entry)
  from Cons.prems have "k \<noteq> f" and "k \<notin> fst ` set formData"
    by (auto simp: e)
  then show ?case
    by (simp add: Cons.IH e map_of_validate_field)
qed

lemma required_message_stays:
  assumes "distinct (map fst formData)" and "(f, v) \<in> set formData" and "\<not> validateRequired v"
  shows "map_of (foldl validate_field errs formData) f = Some ''This field is required''"
  using assms
proof (induction formData arbitrary: errs)
  case Nil
  then show ?case by simp
next
  case (Cons entry formData)
  show ?case
  proof (cases "entry = (f, v)")
    case True
    with Cons.prems have "f \<notin> fst ` set formData"
      by auto
    then show ?thesis
      using Cons.prems(3) by (simp add: True map_of_validate_other map_of_validate_field)
  next
    case False
    with Cons.prems have "distinct (map fst formData)" and "(f, v) \<in> set formData"
      by auto
    then show ?thesis
      using Cons.prems(3) Cons.IH by simp
  qed
qed

text \<open>
  Claim C6. \<open>validate\<close> on the form with an empty \<open>email\<close> and the \<open>name\<close> \<open>x\<close>
  answers invalid, with the required-field message for \<open>email\<close> and no entry for
  \<open>name\<close>. In general, when the value of the field \<open>email\<close> fails both the format
  check and the non-empty check, the format message is assigned first and the
  required-field message is assigned over it; in the result of a whole form (an object,
  so with distinct field names) \<open>errors.email\<close> is the required-field message and the
  form is invalid.
\<close>

theorem required_overrides_format:
  "validate [(''email'', ''''), (''name'', ''x'')] =
     \<lparr>isValid = False, errors = [(''email'', ''This field is required'')]\<rparr>
   \<and> (\<not> validateEmail v \<and> \<not> validateRequired v \<longrightarrow>
        validate_field errs (''email'', v) =
          assign ''email'' ''This field is required''
            (assign ''email'' ''Invalid email format'' errs))
   \<and> (distinct (map fst formData) \<and> (''email'', v) \<in> set formData
        \<and> \<not> validateEmail v \<and> \<not> validateRequired v \<longrightarrow>
        map_of (errors (validate formData)) ''email'' = Some ''This field is required''
        \<and> \<not> isValid (validate formData))"
proof (intro conjI impI)
  show "validate [(''email'', ''''), (''name'', ''x'')] =
     \<lparr>isValid = False, errors = [(''email'', ''This field is required'')]\<rparr>"
    by code_simp
next
  assume "\<not> validateEmail v \<and> \<not> validateRequired v"
  then show "validate_field errs (''email'', v) =
          assign ''email'' ''This field is required''
            (assign ''email'' ''Invalid email format'' errs)"
    by (simp add: validate_field_def Let_def)
next
  assume a: "distinct (map fst formData) \<and> (''email'', v) \<in> set formData
        \<and> \<not> validateEmail v \<and> \<not> validateRequired v"
  then have m: "map_of (foldl validate_field [] formData) ''email'' = Some ''This field is required''"
    using required_message_stays [of formData "''email''" v "[]"] by blast
  then show "map_of (errors (validate formData)) ''email'' = Some ''This field is required''"
    by (simp add: validate_def Let_def)
  from m have "foldl validate_field [] formData \<noteq> []"
    by auto
  then show "\<not> isValid (validate formData)"
    by (simp add: validate_def Let_def)
qed

theorem required_overrides_format_witness:
  "\<not> validateEmail '' '' \<and> \<not> validateRequired '' ''
   \<and> distinct (map fst [(''name'', ''x''), (''email'', '' '')])
   \<and> (''email'', '' '') \<in> set [(''name'', ''x''), (''email'', '' '')]
   \<and> validate_field [] (''email'', '' '') = [(''email'', ''This field is required'')]
   \<and> map_of (errors (validate [(''name'', ''x''), (''email'', '' '')])) ''email'' =
        Some ''This field is required''
   \<and> \<not> isValid (validate [(''name'', ''x''), (''email'', '' '')])"
proof -
  have h1: "\<not> validateEmail '' ''" by code_simp
  have h2: "\<not> validateRequired '' ''" by code_simp
  from required_overrides_format [where v = "'' ''" and errs = "[]"
         and formData = "[(''name'', ''x''), (''email'', '' '')]"] h1 h2
  show ?thesis
    by simp
qed

section \<open>Properties of the snapshot copy\<close>




lemma properties_alloc_old:
  "a < length h \<Longrightarrow> properties (snd (alloc v h)) a = properties h a"
  by (simp add: alloc_def properties_def nth_append)

lemma properties_alloc_new:
  "properties (snd (alloc (Object entries) h)) (fst (alloc (Object entries) h)) = entries"
  by (simp add: alloc_def properties_def)





section \<open>The cart by reference and the cart by value\<close>

lemma map_filter_all: "list_all (\<lambda>a. f a \<noteq> None) xs \<Longrightarrow> List.map_filter f xs = map (the \<circ> f) xs"
  by (induction xs) (auto simp: List.map_filter_simps)

lemma item_at_snoc_object: "item_at (h @ [Object e]) = item_at h"
  by (rule ext) (auto simp: item_at_def nth_append)

lemma elements_snoc_object: "elements (h @ [Object e]) = elements h"
  by (rule ext) (auto simp: elements_def nth_append)

lemma setState_ref_fields:
  "this_items (fst (setState_ref ns (c, h))) = this_items c"
  "this_totalPrice (fst (setState_ref ns (c, h))) = this_totalPrice c"
  "snd (setState_ref ns (c, h)) = h @ [Object (spread (properties h (this_state c)) ns)]"
  by (simp_all add: setState_ref_def Let_def notify_ref_def alloc_def)

lemma cart_items_setState_ref: "cart_items (setState_ref ns (c, h)) = cart_items (c, h)"
  by (simp add: cart_items_def setState_ref_fields item_at_snoc_object elements_snoc_object)

lemma well_formed_setState_ref: "well_formed (c, h) \<Longrightarrow> well_formed (setState_ref ns (c, h))"
  by (simp add: well_formed_def Let_def setState_ref_fields item_at_snoc_object
        elements_snoc_object nth_append)

lemma calculateTotal_ref_fields:
  "this_items (fst (calculateTotal_ref (c, h))) = this_items c"
  "snd (calculateTotal_ref (c, h)) = h"
  by (simp_all add: calculateTotal_ref_def Let_def)

lemma cart_items_calculateTotal_ref:
  "cart_items (fst (calculateTotal_ref (c, h)), h) = cart_items (c, h)"
  by (simp add: cart_items_def calculateTotal_ref_fields)

lemma well_formed_calculateTotal_ref:
  "well_formed (c, h) \<Longrightarrow> well_formed (fst (calculateTotal_ref (c, h)), h)"
  by (simp add: well_formed_def Let_def calculateTotal_ref_fields)

lemma total_calculateTotal_ref:
  assumes "well_formed (c, h)"
  shows "this_totalPrice (fst (calculateTotal_ref (c, h))) = derived_total (cart_items (c, h))"
proof -
  let ?els = "elements h (this_items c)"
  from assms have all: "list_all (\<lambda>a. item_at h a \<noteq> None) ?els"
    by (simp add: well_formed_def Let_def)
  have "foldl (\<lambda>total a.
                 jsadd total
                   (case item_at h a of
                      Some item \<Rightarrow>
                        jsmul (parseFloat (price item)) (number_of_count (quantity item))
                    | None \<Rightarrow> NaN)) z els =
        foldl (\<lambda>total item.
                 jsadd total (jsmul (parseFloat (price item)) (number_of_count (quantity item))))
          z (map (the \<circ> item_at h) els)"
    if "list_all (\<lambda>a. item_at h a \<noteq> None) els" for z els
    using that by (induction els arbitrary: z) auto
  from this [OF all] show ?thesis
    by (simp add: calculateTotal_ref_def Let_def cart_items_def map_filter_all [OF all]
          reduce_total jsadd_zero_left)
qed

lemma map_update_distinct:
  assumes "distinct xs" and "k < length xs"
  shows "map (\<lambda>b. if b = xs ! k then v else f b) xs = (map f xs)[k := v]"
proof (rule nth_equalityI)
  show "length (map (\<lambda>b. if b = xs ! k then v else f b) xs) = length ((map f xs)[k := v])"
    by simp
next
  fix i
  assume "i < length (map (\<lambda>b. if b = xs ! k then v else f b) xs)"
  then have i: "i < length xs"
    by simp
  with assms have "xs ! i = xs ! k \<longleftrightarrow> i = k"
    by (simp add: nth_eq_iff_index_eq)
  with i assms(2) show "map (\<lambda>b. if b = xs ! k then v else f b) xs ! i = (map f xs)[k := v] ! i"
    by (simp add: nth_list_update)
qed

lemma item_at_update_item:
  "a < length h \<Longrightarrow> item_at (h[a := ItemObject x]) b = (if b = a then Some x else item_at h b)"
  by (simp add: item_at_def)

lemma elements_update_item:
  "item_at h a \<noteq> None \<Longrightarrow> elements (h[a := ItemObject x]) = elements h"
  by (rule ext) (auto simp: elements_def item_at_def nth_list_update split: if_splits cell.splits)

lemma find_items:
  assumes "list_all (\<lambda>a. item_at h a \<noteq> None) els"
  shows "find (\<lambda>item. name item = n) (map (the \<circ> item_at h) els) =
           map_option (the \<circ> item_at h)
             (find (\<lambda>a. map_option name (item_at h a) = Some n) els)"
  using assms by (induction els) auto

lemma takeWhile_items:
  assumes "list_all (\<lambda>a. item_at h a \<noteq> None) els"
  shows "length (takeWhile (\<lambda>item. name item \<noteq> n) (map (the \<circ> item_at h) els)) =
           length (takeWhile (\<lambda>a. \<not> map_option name (item_at h a) = Some n) els)"
  using assms by (induction els) auto

lemma addItem_ref_store:
  "addItem_ref product (c, h) =
     setState_ref
       [(''items'', Ref (this_items c)),
        (''totalPrice'', Num (this_totalPrice (fst (calculateTotal_ref (c, h1)))))]
       (fst (calculateTotal_ref (c, h1)), h1)"
  if "h1 =
       (case find (\<lambda>a. map_option name (item_at h a) = Some (name product))
               (elements h (this_items c)) of
          Some existingItem \<Rightarrow>
            (case item_at h existingItem of
               Some item \<Rightarrow> h[existingItem := ItemObject (item\<lparr>quantity := quantity item + 1\<rparr>)]
             | None \<Rightarrow> h)
        | None \<Rightarrow>
            (let pushed = alloc (ItemObject
                   \<lparr>name = name product, price = price product, quantity = 1\<rparr>) h
             in (snd pushed)[this_items c :=
                   Array (elements h (this_items c) @ [fst pushed])]))"
  unfolding that by (simp add: addItem_ref_def Let_def calculateTotal_ref_fields)

lemma addItem_ref_step:
  assumes wf: "well_formed (c, h)" and rel: "items cv = cart_items (c, h)"
  shows "\<exists>h1. addItem_ref product (c, h) =
           setState_ref
             [(''items'', Ref (this_items c)),
              (''totalPrice'', Num (this_totalPrice (fst (calculateTotal_ref (c, h1)))))]
             (fst (calculateTotal_ref (c, h1)), h1)
         \<and> well_formed (c, h1) \<and> cart_items (c, h1) = items (addItem product cv)"
proof -
  let ?i = "this_items c"
  let ?els = "elements h ?i"
  let ?n = "name product"
  let ?its = "map (the \<circ> item_at h) ?els"
  from wf have i: "?i < length h" and arr: "h ! ?i = Array ?els"
    and dist: "distinct ?els" and all: "list_all (\<lambda>a. item_at h a \<noteq> None) ?els"
    by (auto simp: well_formed_def Let_def elements_def split: cell.splits)
  from rel all have its: "items cv = ?its"
    by (simp add: cart_items_def map_filter_all)
  show ?thesis
  proof (cases "find (\<lambda>a. map_option name (item_at h a) = Some ?n) ?els")
    case None
    define new where "new = \<lparr>name = name product, price = price product, quantity = 1\<rparr>"
    define h1 where "h1 = (h @ [ItemObject new])[?i := Array (?els @ [length h])]"
    have st: "addItem_ref product (c, h) =
           setState_ref
             [(''items'', Ref ?i),
              (''totalPrice'', Num (this_totalPrice (fst (calculateTotal_ref (c, h1)))))]
             (fst (calculateTotal_ref (c, h1)), h1)"
      by (rule addItem_ref_store) (unfold None, simp add: alloc_def h1_def new_def)
    have el: "elements h1 ?i = ?els @ [length h]"
      using i by (simp add: elements_def h1_def)
    from all have lt: "\<forall>a \<in> set ?els. a < length h \<and> a \<noteq> ?i"
      using arr by (auto simp: list_all_iff item_at_def split: if_splits)
    have old: "item_at h1 a = item_at h a" if "a \<in> set ?els" for a
      using lt that i by (auto simp: item_at_def nth_list_update nth_append h1_def)
    have new: "item_at h1 (length h) = Some new"
      using i by (simp add: item_at_def nth_list_update h1_def)
    from all old new have all1: "list_all (\<lambda>a. item_at h1 a \<noteq> None) (?els @ [length h])"
      by (simp add: list_all_iff)
    have "map (the \<circ> item_at h1) ?els = ?its"
      using old by (simp cong: map_cong)
    with new have ci: "cart_items (c, h1) = ?its @ [new]"
      by (simp add: cart_items_def el map_filter_all [OF all1])
    from None have "find (\<lambda>item. name item = ?n) ?its = None"
      by (simp add: find_items [OF all])
    then have "?n \<notin> set (map name (items cv))"
      by (auto simp: its find_None_iff)
    from items_addItem_new [OF this] have v: "items (addItem product cv) = ?its @ [new]"
      by (simp add: its new_def)
    have l1: "?i < length h1"
      using i by (simp add: h1_def)
    have a1: "h1 ! ?i = Array (?els @ [length h])"
      using i by (simp add: h1_def)
    from lt dist have d1: "distinct (?els @ [length h])"
      by auto
    from l1 a1 d1 all1 have w: "well_formed (c, h1)"
      by (simp add: well_formed_def Let_def el)
    from st w ci v show ?thesis
      by auto
  next
    case (Some a)
    define k where "k = length (takeWhile (\<lambda>a. \<not> map_option name (item_at h a) = Some ?n) ?els)"
    from find_position [OF Some] have k: "k < length ?els" and ka: "?els ! k = a"
      and pa: "map_option name (item_at h a) = Some ?n"
      by (simp_all add: k_def)
    from pa obtain it where ia: "item_at h a = Some it" and nit: "name it = ?n"
      by auto
    define it' where "it' = it\<lparr>quantity := quantity it + 1\<rparr>"
    define h1 where "h1 = h[a := ItemObject it']"
    have st: "addItem_ref product (c, h) =
           setState_ref
             [(''items'', Ref ?i),
              (''totalPrice'', Num (this_totalPrice (fst (calculateTotal_ref (c, h1)))))]
             (fst (calculateTotal_ref (c, h1)), h1)"
      by (rule addItem_ref_store) (unfold Some, simp add: ia h1_def it'_def)
    from ia have al: "a < length h"
      by (simp add: item_at_def split: if_splits)
    from ia arr have ai: "a \<noteq> ?i"
      by (auto simp: item_at_def split: if_splits)
    from ia have "elements h1 = elements h"
      unfolding h1_def by (intro elements_update_item) simp
    then have el: "elements h1 ?i = ?els"
      by simp
    have upd: "item_at h1 b = (if b = a then Some it' else item_at h b)" for b
      unfolding h1_def using al by (rule item_at_update_item)
    from all have all1: "list_all (\<lambda>a. item_at h1 a \<noteq> None) ?els"
      by (simp add: list_all_iff upd)
    have "map (the \<circ> item_at h1) ?els =
            map (\<lambda>b. if b = ?els ! k then it' else (the \<circ> item_at h) b) ?els"
      by (simp add: upd ka)
    also have "\<dots> = ?its[k := it']"
      using dist k by (rule map_update_distinct)
    finally have ci: "cart_items (c, h1) = ?its[k := it']"
      by (simp add: cart_items_def el map_filter_all [OF all1])
    from k ka ia have itk: "?its ! k = it"
      by simp
    with k nit have "?n \<in> set (map name (items cv))"
      unfolding its by (metis length_map nth_map nth_mem)
    from items_addItem_existing [OF this]
    have "items (addItem product cv) =
            (items cv)[length (takeWhile (\<lambda>item. name item \<noteq> ?n) (items cv)) :=
               (items cv ! length (takeWhile (\<lambda>item. name item \<noteq> ?n) (items cv)))
                 \<lparr>quantity :=
                    quantity (items cv ! length (takeWhile (\<lambda>item. name item \<noteq> ?n) (items cv))) + 1\<rparr>]"
      by auto
    moreover have "length (takeWhile (\<lambda>item. name item \<noteq> ?n) (items cv)) = k"
      unfolding its k_def by (rule takeWhile_items [OF all])
    ultimately have v: "items (addItem product cv) = ?its[k := it']"
      by (simp add: its itk it'_def)
    have l1: "?i < length h1"
      using i by (simp add: h1_def)
    have a1: "h1 ! ?i = Array ?els"
      using i ai arr by (simp add: h1_def)
    from l1 a1 dist all1 have w: "well_formed (c, h1)"
      by (simp add: well_formed_def Let_def el)
    from st w ci v show ?thesis
      by auto
  qed
qed

text \<open>
  One call of \<open>addItem\<close> on a well-formed store does to the items in the store what
  the model by value does to its list.
\<close>

lemma addItem_ref_refines:
  assumes wf: "well_formed (c, h)" and rel: "items cv = cart_items (c, h)"
  shows "well_formed (addItem_ref product (c, h))
       \<and> cart_items (addItem_ref product (c, h)) = items (addItem product cv)
       \<and> this_totalPrice (fst (addItem_ref product (c, h))) = totalPrice (addItem product cv)"
proof -
  from addItem_ref_step [OF wf rel, of product] obtain h1 where
    st: "addItem_ref product (c, h) =
           setState_ref
             [(''items'', Ref (this_items c)),
              (''totalPrice'', Num (this_totalPrice (fst (calculateTotal_ref (c, h1)))))]
             (fst (calculateTotal_ref (c, h1)), h1)"
    and w: "well_formed (c, h1)" and ci: "cart_items (c, h1) = items (addItem product cv)"
    by blast
  from w have "well_formed (fst (calculateTotal_ref (c, h1)), h1)"
    by (rule well_formed_calculateTotal_ref)
  then have 1: "well_formed (addItem_ref product (c, h))"
    unfolding st by (rule well_formed_setState_ref)
  have 2: "cart_items (addItem_ref product (c, h)) = items (addItem product cv)"
    unfolding st by (simp add: cart_items_setState_ref cart_items_calculateTotal_ref ci)
  have 3: "this_totalPrice (fst (addItem_ref product (c, h))) = totalPrice (addItem product cv)"
    unfolding st
    by (simp add: setState_ref_fields total_calculateTotal_ref [OF w] ci totalPrice_addItem)
  from 1 2 3 show ?thesis
    by blast
qed

lemma item_at_snoc_array: "item_at (h @ [Array els]) = item_at h"
  by (rule ext) (auto simp: item_at_def nth_append)

lemma filter_items:
  assumes "list_all (\<lambda>a. item_at h a \<noteq> None) els"
  shows "map (the \<circ> item_at h)
           (filter (\<lambda>a. map_option name (item_at h a) \<noteq> Some n) els) =
         filter (\<lambda>item. name item \<noteq> n) (map (the \<circ> item_at h) els)"
  using assms by (induction els) auto

lemma removeItem_ref_refines:
  assumes wf: "well_formed (c, h)" and rel: "items cv = cart_items (c, h)"
  shows "well_formed (removeItem_ref productName (c, h))
       \<and> cart_items (removeItem_ref productName (c, h)) = items (removeItem productName cv)
       \<and> this_totalPrice (fst (removeItem_ref productName (c, h))) =
           totalPrice (removeItem productName cv)"
proof -
  let ?els = "elements h (this_items c)"
  define fl where
    "fl = filter (\<lambda>a. map_option name (item_at h a) \<noteq> Some productName) ?els"
  define c1 where "c1 = c\<lparr>this_items := length h\<rparr>"
  define h1 where "h1 = h @ [Array fl]"
  from wf have dist: "distinct ?els" and all: "list_all (\<lambda>a. item_at h a \<noteq> None) ?els"
    by (auto simp: well_formed_def Let_def)
  from rel all have its: "items cv = map (the \<circ> item_at h) ?els"
    by (simp add: cart_items_def map_filter_all)
  have st: "removeItem_ref productName (c, h) =
           setState_ref
             [(''items'', Ref (this_items c1)),
              (''totalPrice'', Num (this_totalPrice (fst (calculateTotal_ref (c1, h1)))))]
             (fst (calculateTotal_ref (c1, h1)), h1)"
    by (simp add: removeItem_ref_def Let_def alloc_def calculateTotal_ref_fields
          c1_def h1_def fl_def)
  have el: "elements h1 (this_items c1) = fl"
    by (simp add: elements_def c1_def h1_def)
  from all have all1: "list_all (\<lambda>a. item_at h1 a \<noteq> None) fl"
    by (simp add: h1_def item_at_snoc_array fl_def list_all_iff)
  from dist have "distinct fl"
    by (simp add: fl_def)
  with all1 have w: "well_formed (c1, h1)"
    by (simp add: well_formed_def Let_def el) (simp add: c1_def h1_def)
  have fi: "map (the \<circ> item_at h) fl =
              filter (\<lambda>item. name item \<noteq> productName) (map (the \<circ> item_at h) ?els)"
    unfolding fl_def by (rule filter_items [OF all])
  have same: "item_at h1 = item_at h"
    by (simp add: h1_def item_at_snoc_array)
  from all1 have all2: "list_all (\<lambda>a. item_at h a \<noteq> None) fl"
    by (simp add: same)
  have ci: "cart_items (c1, h1) = items (removeItem productName cv)"
    by (simp add: cart_items_def el same map_filter_all [OF all2] items_removeItem its fi)
  from w have "well_formed (fst (calculateTotal_ref (c1, h1)), h1)"
    by (rule well_formed_calculateTotal_ref)
  then have 1: "well_formed (removeItem_ref productName (c, h))"
    unfolding st by (rule well_formed_setState_ref)
  have 2: "cart_items (removeItem_ref productName (c, h)) = items (removeItem productName cv)"
    unfolding st by (simp add: cart_items_setState_ref cart_items_calculateTotal_ref ci)
  have 3: "this_totalPrice (fst (removeItem_ref productName (c, h))) =
             totalPrice (removeItem productName cv)"
    unfolding st
    by (simp add: setState_ref_fields total_calculateTotal_ref [OF w] ci totalPrice_removeItem)
  from 1 2 3 show ?thesis
    by blast
qed

lemma clearCart_ref_refines:
  "well_formed (clearCart_ref (c, h))
   \<and> cart_items (clearCart_ref (c, h)) = items (clearCart cv)
   \<and> this_totalPrice (fst (clearCart_ref (c, h))) = totalPrice (clearCart cv)"
  by (simp add: clearCart_ref_def Let_def alloc_def setState_ref_def notify_ref_def
        well_formed_def cart_items_def elements_def nth_append List.map_filter_simps
        items_clearCart totalPrice_clearCart)

lemma new_Cart_ref_refines:
  "well_formed (new_Cart_ref h)
   \<and> cart_items (new_Cart_ref h) = items new_Cart
   \<and> this_totalPrice (fst (new_Cart_ref h)) = totalPrice new_Cart"
  by (simp add: new_Cart_ref_def Let_def alloc_def well_formed_def cart_items_def
        elements_def nth_append List.map_filter_simps new_Cart_def)

lemma apply_cart_op_ref_refines:
  assumes "well_formed ch" and "items cv = cart_items ch"
  shows "well_formed (apply_cart_op_ref ch op)
       \<and> cart_items (apply_cart_op_ref ch op) = items (apply_cart_op cv op)
       \<and> this_totalPrice (fst (apply_cart_op_ref ch op)) = totalPrice (apply_cart_op cv op)"
proof -
  obtain c h where ch: "ch = (c, h)"
    by (cases ch)
  from assms show ?thesis
    unfolding ch
    by (cases op)
       (simp_all add: addItem_ref_refines removeItem_ref_refines clearCart_ref_refines)
qed

lemma run_cart_ref_refines:
  assumes "well_formed ch" and "items cv = cart_items ch"
      and "totalPrice cv = this_totalPrice (fst ch)"
  shows "well_formed (run_cart_ref ops ch)
       \<and> cart_items (run_cart_ref ops ch) = items (run_cart ops cv)
       \<and> this_totalPrice (fst (run_cart_ref ops ch)) = totalPrice (run_cart ops cv)"
  using assms unfolding run_cart_ref_def run_cart_def
proof (induction ops arbitrary: ch cv)
  case Nil
  then show ?case by simp
next
  case (Cons op ops)
  from apply_cart_op_ref_refines [OF Cons.prems(1,2), of op]
  have "well_formed (apply_cart_op_ref ch op)"
    and "items (apply_cart_op cv op) = cart_items (apply_cart_op_ref ch op)"
    and "totalPrice (apply_cart_op cv op) = this_totalPrice (fst (apply_cart_op_ref ch op))"
    by simp_all
  from Cons.IH [OF this] show ?case
    by simp
qed

text \<open>
  The two models of the cart agree. After any sequence of calls on a fresh cart, the
  items that the cart by reference holds in the store are the items of the cart by
  value, and the stored totals are equal. The properties of the items list and of the
  total proved above therefore hold of the cart by reference as well, as long as only
  the cart's own operations touch the store.
\<close>

lemma store_cart_is_value_cart:
  "cart_items (run_cart_ref ops (new_Cart_ref h :: 'o Cart_ref \<times> store)) =
     items (run_cart ops (new_Cart :: 'o Cart))
   \<and> this_totalPrice (fst (run_cart_ref ops (new_Cart_ref h :: 'o Cart_ref \<times> store))) =
     totalPrice (run_cart ops (new_Cart :: 'o Cart))"
proof -
  let ?ch = "new_Cart_ref h :: 'o Cart_ref \<times> store"
  let ?cv = "new_Cart :: 'o Cart"
  have "well_formed ?ch \<and> cart_items ?ch = items ?cv
          \<and> this_totalPrice (fst ?ch) = totalPrice ?cv"
    by (rule new_Cart_ref_refines)
  then have "well_formed ?ch" and "items ?cv = cart_items ?ch"
    and "totalPrice ?cv = this_totalPrice (fst ?ch)"
    by simp_all
  from run_cart_ref_refines [OF this] show ?thesis
    by blast
qed

end
